theory Spec2Isabelle
  imports Main
begin

section \<open>Data model (types.ts)\<close>

text \<open>
  The records follow the interfaces of \<^verbatim>\<open>types.ts\<close>. Field names that occur in
  several interfaces (\<^verbatim>\<open>id\<close>, \<^verbatim>\<open>name\<close>, \<^verbatim>\<open>status\<close>, \<^verbatim>\<open>created_at\<close>) carry the
  interface as a prefix, since \<^verbatim>\<open>id\<close> is a constant of HOL and record fields
  share one name space. The source reads \<^verbatim>\<open>incident_updates\<close> and
  \<^verbatim>\<open>components\<close> through optional chaining (\<^verbatim>\<open>?.\<close>), so both may be absent at
  run time: they are optional lists here.
\<close>

record StatusUpdate =
  update_id :: string
  update_status :: string
  body :: string
  update_created_at :: string

record Component =
  component_id :: string
  component_name :: string
  component_status :: string

record StatusEvent =
  event_id :: string
  name :: string
  status :: string
  impact :: string
  shortlink :: string
  created_at :: string
  updated_at :: string
  incident_updates :: "StatusUpdate list option"
  components :: "Component list option"
  scheduled_for :: "string option"
  scheduled_until :: "string option"

datatype EventType = Incident | Maintenance

record ParsedEvent = StatusEvent +
  eventType :: EventType
  fingerprint :: string

record BotState =
  seenIds :: "string list"
  fingerprints :: "string \<rightharpoonup> string"
  lastChecked :: string

section \<open>Event normalizer (epic-status.ts)\<close>

text \<open>
  \<^verbatim>\<open>event.incident_updates?.[0]?.id || ''\<close>: the id of the first update, and the
  empty string when the list is absent or empty (or when that id is itself the
  empty string, which \<^verbatim>\<open>||\<close> treats as absent).
\<close>

definition latestUpdateId :: "'a StatusEvent_scheme \<Rightarrow> string" where
  "latestUpdateId event =
     (case incident_updates event of
        None \<Rightarrow> ''''
      | Some [] \<Rightarrow> ''''
      | Some (u # _) \<Rightarrow> (if update_id u = '''' then '''' else update_id u))"

definition getFingerprint :: "'a StatusEvent_scheme \<Rightarrow> string" where
  "getFingerprint event = status event @ '':'' @ latestUpdateId event"

definition parseEvent :: "StatusEvent \<Rightarrow> EventType \<Rightarrow> ParsedEvent" where
  "parseEvent data et =
     StatusEvent.extend data (ParsedEvent.fields et (getFingerprint data))"

section \<open>JavaScript string and array primitives used by the matcher\<close>

text \<open>
  \<^verbatim>\<open>String.prototype.toLowerCase\<close> is a function of the JavaScript library, with the
  case mapping of Unicode behind it. The matcher takes it as the parameter
  \<open>toLowerCase\<close>, so that what is proved of the matcher holds whatever the case mapping
  is.
\<close>

fun startsWith :: "string \<Rightarrow> string \<Rightarrow> bool" where
  "startsWith hay [] = True"
| "startsWith [] (n # ns) = False"
| "startsWith (h # hs) (n # ns) = (h = n \<and> startsWith hs ns)"

text \<open>\<^verbatim>\<open>String.prototype.includes\<close>: the needle occurs as a contiguous substring.\<close>

fun str_includes :: "string \<Rightarrow> string \<Rightarrow> bool" where
  "str_includes [] needle = (needle = [])"
| "str_includes (h # hs) needle = (startsWith (h # hs) needle \<or> str_includes hs needle)"

text \<open>\<^verbatim>\<open>Array.prototype.join\<close>.\<close>

fun join :: "string \<Rightarrow> string list \<Rightarrow> string" where
  "join sep [] = []"
| "join sep [x] = x"
| "join sep (x # y # ys) = x @ sep @ join sep (y # ys)"

text \<open>\<^verbatim>\<open>Array.prototype.indexOf\<close>: the first position of the value, \<open>-1\<close> when absent.\<close>

fun indexOf_from :: "int \<Rightarrow> 'a list \<Rightarrow> 'a \<Rightarrow> int" where
  "indexOf_from i [] x = - 1"
| "indexOf_from i (y # ys) x = (if y = x then i else indexOf_from (i + 1) ys x)"

definition indexOf :: "'a list \<Rightarrow> 'a \<Rightarrow> int" where
  "indexOf xs x = indexOf_from 0 xs x"

text \<open>\<^verbatim>\<open>Array.prototype.slice(-n)\<close>: the last \<open>n\<close> elements, all of them when there are fewer.\<close>

definition slice_last :: "nat \<Rightarrow> 'a list \<Rightarrow> 'a list" where
  "slice_last n xs = drop (length xs - n) xs"

section \<open>Subscriptions and the matcher (subscriptions.ts)\<close>

text \<open>
  \<^verbatim>\<open>minImpact\<close> has the type \<^verbatim>\<open>'none' | 'minor' | 'major' | 'critical'\<close>, and the
  \<^verbatim>\<open>/filter impact\<close> command stores nothing else. \<^verbatim>\<open>eventTypes\<close> is declared
  \<^verbatim>\<open>string[]\<close>, but \<^verbatim>\<open>saveSubscription\<close> and \<^verbatim>\<open>handleFilter\<close> store one of the
  strings \<^verbatim>\<open>'all'\<close>, \<^verbatim>\<open>'incidents'\<close>, \<^verbatim>\<open>'maintenance'\<close>, and the matcher compares it
  with \<^verbatim>\<open>===\<close> against a string: both shapes are values of the type here.
\<close>

datatype MinImpact = ImpactNone | ImpactMinor | ImpactMajor | ImpactCritical

fun impactName :: "MinImpact \<Rightarrow> string" where
  "impactName ImpactNone = ''none''"
| "impactName ImpactMinor = ''minor''"
| "impactName ImpactMajor = ''major''"
| "impactName ImpactCritical = ''critical''"

datatype EventTypes = EventTypesString string | EventTypesArray "string list"

record UserSubscription =
  chatId :: int
  services :: "string list"
  minImpact :: MinImpact
  eventTypes :: EventTypes
  createdAt :: string
  updatedAt :: string

definition IMPACT_LEVELS :: "string list" where
  "IMPACT_LEVELS = [''none'', ''minor'', ''major'', ''critical'']"

text \<open>
  The haystack of the services filter:
  \<^verbatim>\<open>`${event.name} ${event.components?.map(c => c.name).join(' ') || ''}`.toLowerCase()\<close>.
\<close>

definition eventText :: "(string \<Rightarrow> string) \<Rightarrow> ParsedEvent \<Rightarrow> string" where
  "eventText toLowerCase event =
     toLowerCase (name event @ '' '' @
       (case components event of
          None \<Rightarrow> ''''
        | Some cs \<Rightarrow> join '' '' (map component_name cs)))"

definition eventMatchesSubscription ::
  "(string \<Rightarrow> string) \<Rightarrow> ParsedEvent \<Rightarrow> UserSubscription \<Rightarrow> bool" where
  "eventMatchesSubscription toLowerCase event subscription =
     (if eventTypes subscription = EventTypesString ''incidents''
         \<and> eventType event = Maintenance then False
      else if eventTypes subscription = EventTypesString ''maintenance''
         \<and> eventType event = Incident then False
      else if eventType event = Incident
         \<and> impactName (minImpact subscription) \<noteq> ''none''
         \<and> indexOf IMPACT_LEVELS (impact event)
             < indexOf IMPACT_LEVELS (impactName (minImpact subscription)) then False
      else if length (services subscription) > 0
         \<and> \<not> list_ex (\<lambda>service. str_includes (eventText toLowerCase event) (toLowerCase service))
               (services subscription) then False
      else True)"


section \<open>Change state and the poll cycle (index.ts)\<close>

text \<open>
  \<^verbatim>\<open>loadState\<close>: the value stored under \<^verbatim>\<open>bot_state\<close>, or the empty default. The
  clock (\<^verbatim>\<open>new Date().toISOString()\<close>) is the parameter \<open>now\<close>.
\<close>

definition loadState :: "BotState option \<Rightarrow> string \<Rightarrow> BotState" where
  "loadState data now =
     (case data of
        Some state \<Rightarrow> state
      | None \<Rightarrow> \<lparr>seenIds = [], fingerprints = Map.empty, lastChecked = now\<rparr>)"

text \<open>\<^verbatim>\<open>saveState\<close>: the state that is written to the store.\<close>

definition currentIds :: "ParsedEvent list \<Rightarrow> string set" where
  "currentIds currentEvents = set (map event_id currentEvents)"

definition relevantIds :: "BotState \<Rightarrow> ParsedEvent list \<Rightarrow> string list" where
  "relevantIds state currentEvents =
     filter (\<lambda>i. i \<in> currentIds currentEvents) (seenIds state)"

definition historicalIds :: "BotState \<Rightarrow> ParsedEvent list \<Rightarrow> string list" where
  "historicalIds state currentEvents =
     slice_last 50 (filter (\<lambda>i. i \<notin> currentIds currentEvents) (seenIds state))"

definition saveState :: "string \<Rightarrow> BotState \<Rightarrow> ParsedEvent list \<Rightarrow> BotState" where
  "saveState now state currentEvents =
     \<lparr>seenIds = relevantIds state currentEvents @ historicalIds state currentEvents,
      fingerprints = fingerprints state |`
         set (relevantIds state currentEvents @ historicalIds state currentEvents),
      lastChecked = now\<rparr>"

text \<open>The two flags of the loop body, and the three-way classification they encode.\<close>

definition isNew :: "BotState \<Rightarrow> ParsedEvent \<Rightarrow> bool" where
  "isNew state event = (event_id event \<notin> set (seenIds state))"

definition isUpdated :: "BotState \<Rightarrow> ParsedEvent \<Rightarrow> bool" where
  "isUpdated state event =
     (\<not> isNew state event \<and> fingerprints state (event_id event) \<noteq> Some (fingerprint event))"

datatype Classification = NEW | UPDATED | UNCHANGED

definition classify :: "BotState \<Rightarrow> ParsedEvent \<Rightarrow> Classification" where
  "classify state event =
     (if \<not> isNew state event \<and> \<not> isUpdated state event then UNCHANGED
      else if isNew state event then NEW else UPDATED)"

text \<open>
  A delivery request \<^verbatim>\<open>sendEventNotification(token, chatId, event, isUpdated)\<close>. Its
  result is only logged, so the cycle is the same whether the delivery succeeds.
\<close>

type_synonym Notification = "int \<times> ParsedEvent \<times> bool"

definition notifySubscribers ::
  "(string \<Rightarrow> string) \<Rightarrow> (int \<rightharpoonup> UserSubscription) \<Rightarrow> int list \<Rightarrow> ParsedEvent \<Rightarrow> bool
     \<Rightarrow> Notification list" where
  "notifySubscribers toLowerCase getSubscription subscriberIds event updated =
     concat (map (\<lambda>chat.
        case getSubscription chat of
          None \<Rightarrow> []
        | Some subscription \<Rightarrow>
            (if eventMatchesSubscription toLowerCase event subscription
             then [(chat, event, updated)] else []))
       subscriberIds)"

text \<open>
  \<^verbatim>\<open>state.fingerprints[event.id] = event.fingerprint\<close> on a plain object, whose own
  properties are the entries of the map. Every key is stored as an own property but
  \<^verbatim>\<open>__proto__\<close>: unless the object already has an own property of that name (as
  \<^verbatim>\<open>JSON.parse\<close> and \<^verbatim>\<open>Object.fromEntries\<close> create it), the assignment reaches the
  setter of \<^verbatim>\<open>Object.prototype\<close>, which ignores a string. Reading a key that is not an
  own property gives a value that is not a string (\<^verbatim>\<open>undefined\<close>, or what the prototype
  has under that name), so \<^verbatim>\<open>!==\<close> against a fingerprint is true there, as it is for
  \<open>None\<close>.
\<close>

definition assign_property ::
  "(string \<rightharpoonup> string) \<Rightarrow> string \<Rightarrow> string \<Rightarrow> (string \<rightharpoonup> string)" where
  "assign_property obj key v =
     (if key = ''__proto__'' \<and> obj key = None then obj else obj(key \<mapsto> v))"

text \<open>The loop \<^verbatim>\<open>for (const event of events)\<close>, on the state and the requests sent so far.\<close>

fun processEvents ::
  "(string \<Rightarrow> string) \<Rightarrow> (int \<rightharpoonup> UserSubscription) \<Rightarrow> int list \<Rightarrow> ParsedEvent list
     \<Rightarrow> BotState \<times> Notification list \<Rightarrow> BotState \<times> Notification list" where
  "processEvents toLowerCase getSubscription subscriberIds [] acc = acc"
| "processEvents toLowerCase getSubscription subscriberIds (event # rest) (state, sent) =
     (if \<not> isNew state event \<and> \<not> isUpdated state event
      then processEvents toLowerCase getSubscription subscriberIds rest (state, sent)
      else processEvents toLowerCase getSubscription subscriberIds rest
        (state\<lparr>seenIds :=
                 (if isNew state event then seenIds state @ [event_id event]
                  else seenIds state),
               fingerprints :=
                 assign_property (fingerprints state) (event_id event) (fingerprint event)\<rparr>,
         sent @ notifySubscribers toLowerCase getSubscription subscriberIds event
                  (isUpdated state event)))"

text \<open>
  \<^verbatim>\<open>pollAndNotify\<close>, as a function of what it reads: the stored state, the fetched
  events, the subscriber index and the subscriptions. It returns the state it saves and
  the delivery requests it makes.
\<close>

definition pollAndNotify ::
  "(string \<Rightarrow> string) \<Rightarrow> string \<Rightarrow> BotState option \<Rightarrow> ParsedEvent list \<Rightarrow> int list
     \<Rightarrow> (int \<rightharpoonup> UserSubscription) \<Rightarrow> BotState \<times> Notification list" where
  "pollAndNotify toLowerCase now stored events subscriberIds getSubscription =
     (if length subscriberIds = 0
      then (saveState now (loadState stored now) events, [])
      else (case processEvents toLowerCase getSubscription subscriberIds events
                   (loadState stored now, []) of
              (state, sent) \<Rightarrow> (saveState now state events, sent)))"

text \<open>The stored states that poll cycles can produce, starting from an empty store.\<close>

inductive reachable_store :: "(string \<Rightarrow> string) \<Rightarrow> BotState option \<Rightarrow> bool"
  for toLowerCase :: "string \<Rightarrow> string" where
  store_empty: "reachable_store toLowerCase None"
| store_cycle: "reachable_store toLowerCase stored \<Longrightarrow>
     reachable_store toLowerCase
       (Some (fst (pollAndNotify toLowerCase now stored events subscriberIds getSubscription)))"

definition fingerprints_within_seen :: "BotState \<Rightarrow> bool" where
  "fingerprints_within_seen state = (dom (fingerprints state) \<subseteq> set (seenIds state))"

section \<open>Fetching the feed (epic-status.ts)\<close>

text \<open>
  What \<^verbatim>\<open>fetch\<close> and \<^verbatim>\<open>response.json()\<close> can do: return, or throw. A thrown error is
  the left injection of a sum.
\<close>

datatype error = NetworkError | JsonError

record Response =
  ok :: bool
  http_status :: nat
  json :: "error + (string \<rightharpoonup> StatusEvent list)"

definition try_catch :: "error + 'a \<Rightarrow> (error \<Rightarrow> error + 'a) \<Rightarrow> error + 'a" where
  "try_catch attempt handler = (case attempt of Inl e \<Rightarrow> handler e | Inr v \<Rightarrow> Inr v)"

definition fetchFromUrl ::
  "(string \<Rightarrow> error + Response) \<Rightarrow> string \<Rightarrow> string \<Rightarrow> EventType
     \<Rightarrow> error + ParsedEvent list" where
  "fetchFromUrl fetch url key et =
     try_catch
       (case fetch url of
          Inl e \<Rightarrow> Inl e
        | Inr response \<Rightarrow>
            (if \<not> ok response then Inr []
             else (case json response of
                     Inl e \<Rightarrow> Inl e
                   | Inr data \<Rightarrow>
                       Inr (map (\<lambda>e. parseEvent e et)
                              (case data key of None \<Rightarrow> [] | Some events \<Rightarrow> events)))))
       (\<lambda>e. Inr [])"

definition BASE_URL :: string where
  "BASE_URL = ''https://status.epicgames.com/api/v2''"

definition INCIDENTS_URL :: string where
  "INCIDENTS_URL = BASE_URL @ ''/incidents/unresolved.json''"

definition MAINTENANCE_ACTIVE_URL :: string where
  "MAINTENANCE_ACTIVE_URL = BASE_URL @ ''/scheduled-maintenances/active.json''"

definition MAINTENANCE_UPCOMING_URL :: string where
  "MAINTENANCE_UPCOMING_URL = BASE_URL @ ''/scheduled-maintenances/upcoming.json''"

definition fetchIncidents :: "(string \<Rightarrow> error + Response) \<Rightarrow> error + ParsedEvent list" where
  "fetchIncidents fetch = fetchFromUrl fetch INCIDENTS_URL ''incidents'' Incident"

definition fetchActiveMaintenances ::
  "(string \<Rightarrow> error + Response) \<Rightarrow> error + ParsedEvent list" where
  "fetchActiveMaintenances fetch =
     fetchFromUrl fetch MAINTENANCE_ACTIVE_URL ''scheduled_maintenances'' Maintenance"

definition fetchUpcomingMaintenances ::
  "(string \<Rightarrow> error + Response) \<Rightarrow> error + ParsedEvent list" where
  "fetchUpcomingMaintenances fetch =
     fetchFromUrl fetch MAINTENANCE_UPCOMING_URL ''scheduled_maintenances'' Maintenance"

text \<open>\<^verbatim>\<open>Promise.all\<close>: all the results in order, or the first error.\<close>

fun promise_all :: "(error + 'a) list \<Rightarrow> error + 'a list" where
  "promise_all [] = Inr []"
| "promise_all (p # ps) =
     (case p of
        Inl e \<Rightarrow> Inl e
      | Inr v \<Rightarrow> (case promise_all ps of Inl e \<Rightarrow> Inl e | Inr vs \<Rightarrow> Inr (v # vs)))"

definition fetchAllEvents ::
  "(string \<Rightarrow> error + Response) \<Rightarrow> bool \<Rightarrow> error + ParsedEvent list" where
  "fetchAllEvents fetch includeUpcoming =
     (case promise_all
             ([fetchIncidents fetch, fetchActiveMaintenances fetch]
              @ (if includeUpcoming then [fetchUpcomingMaintenances fetch] else [])) of
        Inl e \<Rightarrow> Inl e
      | Inr results \<Rightarrow> Inr (concat results))"

section \<open>The impact order of the specification\<close>

text \<open>
  The order \<open>none < minor < major < critical\<close> that the specification puts on impact
  levels, as a rank. The code has no such function: it compares positions in
  \<^const>\<open>IMPACT_LEVELS\<close>.
\<close>

fun impact_rank :: "MinImpact \<Rightarrow> nat" where
  "impact_rank ImpactNone = 0"
| "impact_rank ImpactMinor = 1"
| "impact_rank ImpactMajor = 2"
| "impact_rank ImpactCritical = 3"

section \<open>Concrete events, subscriptions and stores\<close>

text \<open>
  A case mapping for the concrete events below, whose texts are ASCII: the letters
  \<^verbatim>\<open>A\<close> to \<^verbatim>\<open>Z\<close> go to \<^verbatim>\<open>a\<close> to \<^verbatim>\<open>z\<close>, as \<^verbatim>\<open>String.prototype.toLowerCase\<close>
  maps them, and every other character stays.
\<close>

definition asciiToLowerChar :: "char \<Rightarrow> char" where
  "asciiToLowerChar c =
     (if (65::nat) \<le> of_char c \<and> of_char c \<le> (90::nat)
      then char_of (of_char c + (32::nat)) else c)"

definition asciiToLowerCase :: "string \<Rightarrow> string" where
  "asciiToLowerCase s = map asciiToLowerChar s"

text \<open>
  A feed record with the given id, title, status, impact, component names and update
  ids (latest first); the other fields are fixed.
\<close>

definition example_event ::
  "string \<Rightarrow> string \<Rightarrow> string \<Rightarrow> string \<Rightarrow> string list \<Rightarrow> string list \<Rightarrow> StatusEvent" where
  "example_event i title st imp comps upds =
     \<lparr>event_id = i, name = title, status = st, impact = imp,
      shortlink = ''https://stspg.io/x'', created_at = ''2024-01-01T00:00:00Z'',
      updated_at = ''2024-01-01T00:00:00Z'',
      incident_updates =
        Some (map (\<lambda>u. \<lparr>update_id = u, update_status = st, body = ''text'',
                          update_created_at = ''2024-01-01T00:00:00Z''\<rparr>) upds),
      components =
        Some (map (\<lambda>n. \<lparr>component_id = n, component_name = n,
                          component_status = ''operational''\<rparr>) comps),
      scheduled_for = None, scheduled_until = None\<rparr>"

definition example_subscription ::
  "string list \<Rightarrow> MinImpact \<Rightarrow> EventTypes \<Rightarrow> UserSubscription" where
  "example_subscription svcs imp ets =
     \<lparr>chatId = 1, services = svcs, minImpact = imp, eventTypes = ets,
      createdAt = ''2024-01-01T00:00:00Z'', updatedAt = ''2024-01-01T00:00:00Z''\<rparr>"

text \<open>A subscriber directory with the single subscriber 1, who filters nothing.\<close>

definition example_directory :: "int \<rightharpoonup> UserSubscription" where
  "example_directory =
     [1 \<mapsto> example_subscription [] ImpactNone (EventTypesString ''all'')]"

text \<open>The events of the scenarios of the specification.\<close>

definition fortnite_login :: ParsedEvent where
  "fortnite_login =
     parseEvent (example_event ''f1'' ''Fortnite Login Issues'' ''investigating'' ''minor''
                   [] [''u1'']) Incident"

definition store_maintenance_raw :: StatusEvent where
  "store_maintenance_raw =
     example_event ''m1'' ''Store Maintenance'' ''scheduled'' ''none''
       [''Epic Games Store'', ''Fab''] []"

definition store_maintenance :: ParsedEvent where
  "store_maintenance = parseEvent store_maintenance_raw Maintenance"

definition event_a_investigating :: StatusEvent where
  "event_a_investigating =
     example_event ''a'' ''Matchmaking'' ''investigating'' ''major'' [''Fortnite''] [''1'']"

definition event_a_resolved :: StatusEvent where
  "event_a_resolved =
     example_event ''a'' ''Matchmaking'' ''resolved'' ''major'' [''Fortnite''] [''1'']"

definition event_a_second_update :: StatusEvent where
  "event_a_second_update =
     example_event ''a'' ''Matchmaking'' ''investigating'' ''major'' [''Fortnite'']
       [''2'', ''1'']"

definition state_seen_a :: BotState where
  "state_seen_a =
     \<lparr>seenIds = [''a''], fingerprints = [''a'' \<mapsto> ''investigating:1''],
      lastChecked = ''2024-01-01T00:00:00Z''\<rparr>"

definition odd_impact_incident :: ParsedEvent where
  "odd_impact_incident =
     parseEvent (example_event ''x1'' ''Login'' ''investigating'' ''maintenance'' [] [''u9''])
       Incident"

text \<open>One cycle from the empty store, with one subscriber and one event in the feed.\<close>

definition first_cycle :: BotState where
  "first_cycle = fst (pollAndNotify asciiToLowerCase ''t1'' None [fortnite_login] [1] example_directory)"

text \<open>
  A feed of which the incidents endpoint cannot be reached, the active maintenances
  endpoint answers 503, and the upcoming maintenances endpoint answers with one record.
\<close>

definition example_fetch :: "string \<Rightarrow> error + Response" where
  "example_fetch url =
     (if url = INCIDENTS_URL then Inl NetworkError
      else if url = MAINTENANCE_ACTIVE_URL
        then Inr \<lparr>ok = False, http_status = 503, json = Inl JsonError\<rparr>
      else Inr \<lparr>ok = True, http_status = 200,
                json = Inr [''scheduled_maintenances'' \<mapsto> [store_maintenance_raw]]\<rparr>)"

text \<open>
  A feed that churns: fifty incidents in the first cycle, only the incident \<^verbatim>\<open>a\<close> in
  the second, nothing in the third; the subscriber 1 is there throughout.
\<close>

definition example_ids50 :: "string list" where
  "example_ids50 =
     [''h01'', ''h02'', ''h03'', ''h04'', ''h05'', ''h06'', ''h07'', ''h08'', ''h09'',
      ''h10'', ''h11'', ''h12'', ''h13'', ''h14'', ''h15'', ''h16'', ''h17'', ''h18'',
      ''h19'', ''h20'', ''h21'', ''h22'', ''h23'', ''h24'', ''h25'', ''h26'', ''h27'',
      ''h28'', ''h29'', ''h30'', ''h31'', ''h32'', ''h33'', ''h34'', ''h35'', ''h36'',
      ''h37'', ''h38'', ''h39'', ''h40'', ''h41'', ''h42'', ''h43'', ''h44'', ''h45'',
      ''h46'', ''h47'', ''h48'', ''h49'', ''h50'']"

definition example_incident :: "string \<Rightarrow> ParsedEvent" where
  "example_incident i =
     parseEvent (example_event i ''Login'' ''investigating'' ''minor'' [''Fortnite''] [''u1''])
       Incident"

definition churn_cycle1 :: BotState where
  "churn_cycle1 =
     fst (pollAndNotify asciiToLowerCase ''t1'' None (map example_incident example_ids50) [1]
            example_directory)"

definition churn_cycle2 :: BotState where
  "churn_cycle2 =
     fst (pollAndNotify asciiToLowerCase ''t2'' (Some churn_cycle1) [example_incident ''a''] [1]
            example_directory)"

definition churn_cycle3 :: BotState where
  "churn_cycle3 =
     fst (pollAndNotify asciiToLowerCase ''t3'' (Some churn_cycle2) [] [1] example_directory)"

section \<open>Fingerprints\<close>

lemma getFingerprint_parseEvent:
  "fingerprint (parseEvent data et) = getFingerprint data"
  by (simp add: parseEvent_def StatusEvent.defs ParsedEvent.defs)

text \<open>
  Claim C5. The fingerprint of an event is its status, the separator \<^verbatim>\<open>:\<close>, and
  the id of the first element of its update sequence (the empty string when there is
  none). Hence: with the latest update id fixed, two different statuses give two
  different fingerprints; with the status fixed, two different latest update ids give
  two different fingerprints; and events that agree on both have the same fingerprint.
\<close>

theorem getFingerprint_determined:
  "getFingerprint e = status e @ '':'' @ latestUpdateId e
   \<and> (incident_updates e = None \<or> incident_updates e = Some []
        \<longrightarrow> getFingerprint e = status e @ '':'')
   \<and> (\<forall>u us. incident_updates e = Some (u # us)
        \<longrightarrow> getFingerprint e = status e @ '':'' @ update_id u)
   \<and> (latestUpdateId e = latestUpdateId e' \<and> status e \<noteq> status e'
        \<longrightarrow> getFingerprint e \<noteq> getFingerprint e')
   \<and> (status e = status e' \<and> latestUpdateId e \<noteq> latestUpdateId e'
        \<longrightarrow> getFingerprint e \<noteq> getFingerprint e')
   \<and> (status e = status e' \<and> latestUpdateId e = latestUpdateId e'
        \<longrightarrow> getFingerprint e = getFingerprint e')"
  by (auto simp: getFingerprint_def latestUpdateId_def)

text \<open>
  The three consequences at concrete events: the same event after a status change, after
  a new update, and unchanged.
\<close>

theorem getFingerprint_determined_witness:
  "getFingerprint event_a_investigating = ''investigating:1''
   \<and> getFingerprint event_a_resolved \<noteq> getFingerprint event_a_investigating
   \<and> getFingerprint event_a_second_update \<noteq> getFingerprint event_a_investigating
   \<and> getFingerprint (parseEvent event_a_resolved Incident) = getFingerprint event_a_resolved"
proof -
  have s: "status event_a_resolved \<noteq> status event_a_investigating"
          "status event_a_second_update = status event_a_investigating"
          "status (parseEvent event_a_resolved Incident) = status event_a_resolved"
    by (simp_all add: event_a_resolved_def event_a_investigating_def
          event_a_second_update_def example_event_def parseEvent_def StatusEvent.defs)
  have u: "latestUpdateId event_a_resolved = latestUpdateId event_a_investigating"
          "latestUpdateId event_a_second_update \<noteq> latestUpdateId event_a_investigating"
          "latestUpdateId (parseEvent event_a_resolved Incident)
             = latestUpdateId event_a_resolved"
          "latestUpdateId event_a_investigating = ''1''"
          "status event_a_investigating = ''investigating''"
    by (simp_all add: event_a_resolved_def event_a_investigating_def
          event_a_second_update_def example_event_def latestUpdateId_def
          parseEvent_def StatusEvent.defs)
  show ?thesis
    using s u
      getFingerprint_determined [of event_a_investigating event_a_investigating]
      getFingerprint_determined [of event_a_resolved event_a_investigating]
      getFingerprint_determined [of event_a_second_update event_a_investigating]
      getFingerprint_determined [of "parseEvent event_a_resolved Incident" event_a_resolved]
    by simp
qed

section \<open>Strings\<close>







section \<open>The subscription matcher\<close>

lemma indexOf_impactName:
  "indexOf IMPACT_LEVELS (impactName l) = int (impact_rank l)"
  by (cases l) (simp_all add: indexOf_def IMPACT_LEVELS_def)

lemma indexOf_unknown:
  "x \<notin> set IMPACT_LEVELS \<Longrightarrow> indexOf IMPACT_LEVELS x = - 1"
  by (auto simp: indexOf_def IMPACT_LEVELS_def)

lemma impactName_none: "impactName l = ''none'' \<longleftrightarrow> l = ImpactNone"
  by (cases l) simp_all


text \<open>
  Claim C6. The matcher returns false as soon as one filter dimension fails, whatever
  the other dimensions say: the event-type filter is \<^verbatim>\<open>'incidents'\<close> and the event is a
  maintenance, or \<^verbatim>\<open>'maintenance'\<close> and the event is an incident; the event is an
  incident whose impact ranks below a \<open>minImpact\<close> other than \<open>none\<close> in the order
  \<open>none < minor < major < critical\<close>; the services filter is not empty and none of its
  entries occurs in the haystack. Within the services filter one entry that occurs is
  enough: when the first two dimensions pass, the matcher returns true.
\<close>

theorem matcher_conjunction:
  "(eventTypes sub = EventTypesString ''incidents'' \<and> eventType ev = Maintenance
      \<longrightarrow> \<not> eventMatchesSubscription toLowerCase ev sub)
   \<and> (eventTypes sub = EventTypesString ''maintenance'' \<and> eventType ev = Incident
      \<longrightarrow> \<not> eventMatchesSubscription toLowerCase ev sub)
   \<and> (eventType ev = Incident \<and> minImpact sub \<noteq> ImpactNone \<and> impact ev = impactName lvl
        \<and> impact_rank lvl < impact_rank (minImpact sub)
      \<longrightarrow> \<not> eventMatchesSubscription toLowerCase ev sub)
   \<and> (services sub \<noteq> []
        \<and> (\<forall>s \<in> set (services sub). \<not> str_includes (eventText toLowerCase ev) (toLowerCase s))
      \<longrightarrow> \<not> eventMatchesSubscription toLowerCase ev sub)
   \<and> (\<not> (eventTypes sub = EventTypesString ''incidents'' \<and> eventType ev = Maintenance)
        \<and> \<not> (eventTypes sub = EventTypesString ''maintenance'' \<and> eventType ev = Incident)
        \<and> \<not> (eventType ev = Incident \<and> minImpact sub \<noteq> ImpactNone
              \<and> indexOf IMPACT_LEVELS (impact ev)
                  < indexOf IMPACT_LEVELS (impactName (minImpact sub)))
        \<and> (\<exists>s \<in> set (services sub). str_includes (eventText toLowerCase ev) (toLowerCase s))
      \<longrightarrow> eventMatchesSubscription toLowerCase ev sub)"
  by (auto simp: eventMatchesSubscription_def indexOf_impactName impactName_none list_ex_iff)

text \<open>
  Each dimension failing alone while the other two pass, and one matching entry among
  two: a maintenance against \<^verbatim>\<open>'incidents'\<close>, an incident against \<^verbatim>\<open>'maintenance'\<close>, a
  minor incident against the floor \<open>major\<close>, the filter \<^verbatim>\<open>rocket league\<close>, and the
  filters \<^verbatim>\<open>rocket league\<close>, \<^verbatim>\<open>FORTNITE\<close>.
\<close>

theorem matcher_conjunction_witness:
  "\<not> eventMatchesSubscription asciiToLowerCase store_maintenance
       (example_subscription [] ImpactNone (EventTypesString ''incidents''))
   \<and> \<not> eventMatchesSubscription asciiToLowerCase fortnite_login
       (example_subscription [] ImpactNone (EventTypesString ''maintenance''))
   \<and> \<not> eventMatchesSubscription asciiToLowerCase fortnite_login
       (example_subscription [] ImpactMajor (EventTypesString ''all''))
   \<and> \<not> eventMatchesSubscription asciiToLowerCase fortnite_login
       (example_subscription [''rocket league''] ImpactNone (EventTypesString ''all''))
   \<and> eventMatchesSubscription asciiToLowerCase fortnite_login
       (example_subscription [''rocket league'', ''FORTNITE''] ImpactMinor
          (EventTypesString ''all''))"
proof -
  have f: "eventType fortnite_login = Incident" "impact fortnite_login = impactName ImpactMinor"
          "eventType store_maintenance = Maintenance"
    by (simp_all add: fortnite_login_def store_maintenance_def store_maintenance_raw_def
          parseEvent_def
          example_event_def StatusEvent.defs ParsedEvent.defs)
  have t: "eventText asciiToLowerCase fortnite_login = ''fortnite login issues ''"
    by code_simp
  have h4: "\<forall>s \<in> set [''rocket league'']. \<not> str_includes ''fortnite login issues '' (asciiToLowerCase s)"
    by code_simp
  have h5: "\<exists>s \<in> set [''rocket league'', ''FORTNITE''].
              str_includes ''fortnite login issues '' (asciiToLowerCase s)"
    by code_simp
  have i5: "\<not> indexOf IMPACT_LEVELS (impactName ImpactMinor)
              < indexOf IMPACT_LEVELS (impactName ImpactMinor)"
    by simp
  show ?thesis
    using f t h4 h5 i5
      matcher_conjunction [of "example_subscription [] ImpactNone (EventTypesString ''incidents'')"
        store_maintenance asciiToLowerCase ImpactNone]
      matcher_conjunction [of "example_subscription [] ImpactNone (EventTypesString ''maintenance'')"
        fortnite_login asciiToLowerCase ImpactNone]
      matcher_conjunction [of "example_subscription [] ImpactMajor (EventTypesString ''all'')"
        fortnite_login asciiToLowerCase ImpactMinor]
      matcher_conjunction [of "example_subscription [''rocket league''] ImpactNone (EventTypesString ''all'')"
        fortnite_login asciiToLowerCase ImpactNone]
      matcher_conjunction [of "example_subscription [''rocket league'', ''FORTNITE''] ImpactMinor
          (EventTypesString ''all'')" fortnite_login asciiToLowerCase ImpactNone]
    by (simp add: example_subscription_def)
qed

text \<open>
  Claim C10. An incident whose impact string is none of \<^verbatim>\<open>none\<close>, \<^verbatim>\<open>minor\<close>,
  \<^verbatim>\<open>major\<close>, \<^verbatim>\<open>critical\<close> is not matched by any subscription whose \<open>minImpact\<close> is
  not \<open>none\<close>: \<^verbatim>\<open>indexOf\<close> gives it the position \<open>-1\<close>, below every threshold, and
  nothing is raised.
\<close>

theorem unknown_impact_below_threshold:
  "eventType ev = Incident \<and> impact ev \<notin> set IMPACT_LEVELS \<and> minImpact sub \<noteq> ImpactNone
   \<longrightarrow> \<not> eventMatchesSubscription toLowerCase ev sub"
proof
  assume a: "eventType ev = Incident \<and> impact ev \<notin> set IMPACT_LEVELS \<and> minImpact sub \<noteq> ImpactNone"
  then have low: "indexOf IMPACT_LEVELS (impact ev) = - 1"
    by (simp add: indexOf_unknown)
  have "0 \<le> indexOf IMPACT_LEVELS (impactName (minImpact sub))"
    by (simp add: indexOf_impactName)
  with low have "indexOf IMPACT_LEVELS (impact ev)
                   < indexOf IMPACT_LEVELS (impactName (minImpact sub))"
    by simp
  with a show "\<not> eventMatchesSubscription toLowerCase ev sub"
    by (simp add: eventMatchesSubscription_def impactName_none)
qed

text \<open>An incident of impact \<^verbatim>\<open>maintenance\<close> against the lowest floor, \<open>minor\<close>.\<close>

theorem unknown_impact_below_threshold_witness:
  "eventType odd_impact_incident = Incident
   \<and> impact odd_impact_incident \<notin> set IMPACT_LEVELS
   \<and> \<not> eventMatchesSubscription asciiToLowerCase odd_impact_incident
         (example_subscription [] ImpactMinor (EventTypesString ''all''))"
proof -
  have h: "eventType odd_impact_incident = Incident"
          "impact odd_impact_incident \<notin> set IMPACT_LEVELS"
    by (simp_all add: odd_impact_incident_def parseEvent_def example_event_def
          StatusEvent.defs ParsedEvent.defs IMPACT_LEVELS_def)
  have m: "minImpact (example_subscription [] ImpactMinor (EventTypesString ''all'')) \<noteq> ImpactNone"
    by (simp add: example_subscription_def)
  from h m unknown_impact_below_threshold
         [of odd_impact_incident "example_subscription [] ImpactMinor (EventTypesString ''all'')"
             asciiToLowerCase]
  show ?thesis by simp
qed

section \<open>The change-state store\<close>

lemma length_slice_last: "length (slice_last n xs) \<le> n"
  by (simp add: slice_last_def)

lemma set_slice_last: "set (slice_last n xs) \<subseteq> set xs"
  by (simp add: slice_last_def set_drop_subset)

lemma filter_slice_last:
  "filter P (slice_last n (filter P xs)) = slice_last n (filter P xs)"
proof -
  have "\<forall>x \<in> set (slice_last n (filter P xs)). P x"
    using set_slice_last [of n "filter P xs"] by auto
  then show ?thesis by (simp add: filter_id_conv)
qed

lemma seenIds_saveState:
  "seenIds (saveState now state events) =
     relevantIds state events @ historicalIds state events"
  by (simp add: saveState_def)

lemma absent_after_saveState:
  "filter (\<lambda>i. i \<notin> currentIds events) (seenIds (saveState now state events))
     = historicalIds state events"
proof -
  have "filter (\<lambda>i. i \<notin> currentIds events) (relevantIds state events) = []"
    by (simp add: relevantIds_def)
  moreover have "filter (\<lambda>i. i \<notin> currentIds events) (historicalIds state events)
                   = historicalIds state events"
    unfolding historicalIds_def by (rule filter_slice_last)
  ultimately show ?thesis by (simp add: seenIds_saveState)
qed

lemma length_historicalIds: "length (historicalIds state events) \<le> 50"
  by (simp add: historicalIds_def length_slice_last)

lemma saveState_within_seen: "fingerprints_within_seen (saveState now state events)"
  by (auto simp: fingerprints_within_seen_def saveState_def restrict_map_def dom_def
           split: if_splits)

lemma pollAndNotify_saves:
  "\<exists>state. fst (pollAndNotify toLowerCase now stored events subscriberIds getSubscription)
     = saveState now state events"
  by (auto simp: pollAndNotify_def split: prod.splits)

text \<open>
  Claim C4. In every committed state, the ids of \<open>seenIds\<close> that are not ids of events
  of the current snapshot number at most 50: counted with repetitions in the state that
  \<^verbatim>\<open>saveState\<close> writes and in the state a whole cycle leaves, and counted as a set.
\<close>

theorem retention_bound:
  "length (filter (\<lambda>i. i \<notin> currentIds events) (seenIds (saveState now state events))) \<le> 50
   \<and> length (filter (\<lambda>i. i \<notin> currentIds events)
        (seenIds (fst (pollAndNotify toLowerCase now stored events subscriberIds getSubscription)))) \<le> 50
   \<and> card (set (seenIds (fst (pollAndNotify toLowerCase now stored events subscriberIds getSubscription)))
            - currentIds events) \<le> 50"
proof -
  have a: "length (filter (\<lambda>i. i \<notin> currentIds events)
             (seenIds (saveState now st events))) \<le> 50" for st
    by (simp only: absent_after_saveState length_historicalIds)
  obtain st where st: "fst (pollAndNotify toLowerCase now stored events subscriberIds getSubscription)
     = saveState now st events"
    using pollAndNotify_saves by blast
  have "set (seenIds (saveState now st events)) - currentIds events
         = set (filter (\<lambda>i. i \<notin> currentIds events) (seenIds (saveState now st events)))"
    by auto
  then have "card (set (seenIds (saveState now st events)) - currentIds events)
         \<le> length (filter (\<lambda>i. i \<notin> currentIds events) (seenIds (saveState now st events)))"
    by (simp only: card_length)
  with a [of st] have c: "card (set (seenIds (saveState now st events)) - currentIds events) \<le> 50"
    by linarith
  from a [of state] a [of st] c st show ?thesis by simp
qed

text \<open>The bound at the first cycle from the empty store, where nothing is absent yet.\<close>

theorem retention_bound_witness:
  "length (filter (\<lambda>i. i \<notin> currentIds [fortnite_login])
      (seenIds (fst (pollAndNotify asciiToLowerCase ''t1'' None [fortnite_login] [1] example_directory)))) \<le> 50"
  using retention_bound [of "[fortnite_login]" "''t1''" "loadState None ''t1''"
          asciiToLowerCase None "[1]" example_directory]
  by simp

text \<open>
  Claim C8. Every state that loading or a commit produces keeps the domain of
  \<open>fingerprints\<close> inside \<open>seenIds\<close>: the empty default, the state \<^verbatim>\<open>saveState\<close>
  writes from any state and snapshot, the state a cycle leaves, and the state loaded from
  any store that cycles have written.
\<close>

theorem store_invariant:
  "fingerprints_within_seen (loadState None now)
   \<and> fingerprints_within_seen (saveState now state events)
   \<and> fingerprints_within_seen
        (fst (pollAndNotify toLowerCase now stored events subscriberIds getSubscription))
   \<and> (reachable_store toLowerCase kv \<longrightarrow> fingerprints_within_seen (loadState kv now))"
proof -
  have d: "fingerprints_within_seen (loadState None now)"
    by (simp add: loadState_def fingerprints_within_seen_def)
  have p: "fingerprints_within_seen (fst (pollAndNotify toLowerCase t s es ids g))" for t s es ids g
    using pollAndNotify_saves [of toLowerCase t s es ids g] saveState_within_seen by auto
  have "reachable_store toLowerCase kv \<Longrightarrow> fingerprints_within_seen (loadState kv now)"
  proof (induction rule: reachable_store.induct)
    case store_empty
    show ?case by (rule d)
  next
    case (store_cycle stored t events subscriberIds getSubscription)
    show ?case using p by (simp add: loadState_def)
  qed
  with d p saveState_within_seen show ?thesis by blast
qed

text \<open>The state loaded after one cycle from the empty store.\<close>

theorem store_invariant_witness:
  "reachable_store asciiToLowerCase (Some first_cycle)
   \<and> fingerprints_within_seen (loadState (Some first_cycle) ''t2'')"
proof -
  have r: "reachable_store asciiToLowerCase (Some first_cycle)"
    unfolding first_cycle_def by (rule store_cycle [OF store_empty])
  with store_invariant [of "''t2''" first_cycle "[]" asciiToLowerCase None "[]" Map.empty
         "Some first_cycle"]
  show ?thesis by simp
qed

section \<open>The loop over the events\<close>

lemma processEvents_append:
  "processEvents toLowerCase g subs (xs @ ys) acc
     = processEvents toLowerCase g subs ys (processEvents toLowerCase g subs xs acc)"
proof (induction xs arbitrary: acc)
  case Nil
  show ?case by simp
next
  case (Cons x xs)
  show ?case by (cases acc) (simp add: Cons.IH)
qed

lemma processEvents_step:
  "processEvents toLowerCase g subs (event # rest) (state, sent) =
     (case classify state event of
        UNCHANGED \<Rightarrow> processEvents toLowerCase g subs rest (state, sent)
      | NEW \<Rightarrow> processEvents toLowerCase g subs rest
          (state\<lparr>seenIds := seenIds state @ [event_id event],
                 fingerprints :=
                   assign_property (fingerprints state) (event_id event) (fingerprint event)\<rparr>,
           sent @ notifySubscribers toLowerCase g subs event False)
      | UPDATED \<Rightarrow> processEvents toLowerCase g subs rest
          (state\<lparr>fingerprints :=
                   assign_property (fingerprints state) (event_id event) (fingerprint event)\<rparr>,
           sent @ notifySubscribers toLowerCase g subs event True))"
  by (auto simp: classify_def isUpdated_def)

lemma processEvents_seen:
  "set (seenIds (fst (processEvents toLowerCase g subs evs (st, sent))))
     = set (seenIds st) \<union> event_id ` set evs"
proof (induction evs arbitrary: st sent)
  case Nil
  show ?case by simp
next
  case (Cons e evs)
  show ?case
    by (auto simp: Cons.IH isNew_def isUpdated_def)
qed

lemma processEvents_other_fingerprint:
  "i \<notin> event_id ` set evs \<Longrightarrow>
   fingerprints (fst (processEvents toLowerCase g subs evs (st, sent))) i = fingerprints st i"
proof (induction evs arbitrary: st sent)
  case Nil
  show ?case by simp
next
  case (Cons e evs)
  then show ?case by (auto simp: isNew_def isUpdated_def assign_property_def)
qed

lemma processEvents_fingerprint:
  "distinct (map event_id evs) \<Longrightarrow> e \<in> set evs \<Longrightarrow> event_id e \<noteq> ''__proto__'' \<Longrightarrow>
   fingerprints (fst (processEvents toLowerCase g subs evs (st, sent))) (event_id e)
     = Some (fingerprint e)"
proof (induction evs arbitrary: st sent)
  case Nil
  then show ?case by simp
next
  case (Cons x evs)
  show ?case
  proof (cases "e = x")
    case True
    from Cons.prems have "event_id x \<notin> event_id ` set evs" by simp
    then show ?thesis
      using True Cons.prems(3)
      by (auto simp: processEvents_other_fingerprint isNew_def isUpdated_def
            assign_property_def)
  next
    case False
    with Cons.prems have "e \<in> set evs" "distinct (map event_id evs)" by simp_all
    then show ?thesis using Cons.prems(3) by (simp add: Cons.IH)
  qed
qed

text \<open>
  The loop classifies against the state as it stands when it reaches the event. For an
  event whose id did not occur earlier in the snapshot, that is the classification
  against the state the cycle loaded.
\<close>

lemma classify_running_state:
  "event_id event \<notin> event_id ` set earlier \<Longrightarrow>
   classify (fst (processEvents toLowerCase g subs earlier (state, sent))) event
     = classify state event"
  using processEvents_seen [of toLowerCase g subs earlier state sent]
        processEvents_other_fingerprint [of "event_id event" earlier toLowerCase g subs state sent]
  by (auto simp: classify_def isNew_def isUpdated_def)

lemma processEvents_requests:
  "distinct (map event_id evs) \<Longrightarrow>
   snd (processEvents toLowerCase g subs evs (st, sent)) =
     sent @ concat (map (\<lambda>e. case classify st e of
                                UNCHANGED \<Rightarrow> []
                              | NEW \<Rightarrow> notifySubscribers toLowerCase g subs e False
                              | UPDATED \<Rightarrow> notifySubscribers toLowerCase g subs e True) evs)"
proof (induction evs arbitrary: st sent)
  case Nil
  show ?case by simp
next
  case (Cons x evs)
  obtain st1 sent1 where one: "processEvents toLowerCase g subs [x] (st, sent) = (st1, sent1)"
    by fastforce
  have same: "classify st1 e = classify st e" if "e \<in> set evs" for e
  proof -
    from Cons.prems have "event_id x \<notin> event_id ` set evs" by simp
    with that have "event_id e \<noteq> event_id x"
      by (metis (no_types) imageI)
    then have "event_id e \<notin> event_id ` set [x]" by simp
    from classify_running_state [OF this, of toLowerCase g subs st sent] one
    show ?thesis by simp
  qed
  have sent1: "sent1 = sent @ (case classify st x of
                                UNCHANGED \<Rightarrow> []
                              | NEW \<Rightarrow> notifySubscribers toLowerCase g subs x False
                              | UPDATED \<Rightarrow> notifySubscribers toLowerCase g subs x True)"
    using one unfolding processEvents_step by (cases "classify st x") simp_all
  have "processEvents toLowerCase g subs (x # evs) (st, sent)
          = processEvents toLowerCase g subs evs (st1, sent1)"
    using processEvents_append [of toLowerCase g subs "[x]" evs "(st, sent)"] one by simp
  moreover from Cons.prems have "distinct (map event_id evs)" by simp
  ultimately have "snd (processEvents toLowerCase g subs (x # evs) (st, sent)) =
     sent1 @ concat (map (\<lambda>e. case classify st1 e of
                                UNCHANGED \<Rightarrow> []
                              | NEW \<Rightarrow> notifySubscribers toLowerCase g subs e False
                              | UPDATED \<Rightarrow> notifySubscribers toLowerCase g subs e True) evs)"
    by (simp add: Cons.IH)
  also have "map (\<lambda>e. case classify st1 e of
                                UNCHANGED \<Rightarrow> []
                              | NEW \<Rightarrow> notifySubscribers toLowerCase g subs e False
                              | UPDATED \<Rightarrow> notifySubscribers toLowerCase g subs e True) evs
           = map (\<lambda>e. case classify st e of
                                UNCHANGED \<Rightarrow> []
                              | NEW \<Rightarrow> notifySubscribers toLowerCase g subs e False
                              | UPDATED \<Rightarrow> notifySubscribers toLowerCase g subs e True) evs"
    using same by (simp cong: map_cong)
  finally show ?case by (simp add: sent1)
qed

lemma notifySubscribers_nobody: "notifySubscribers toLowerCase g [] e b = []"
  by (simp add: notifySubscribers_def)

section \<open>Classification\<close>

text \<open>
  Claim C3. Against any state, an event is classified as exactly one of \<open>NEW\<close> (its id
  is not in \<open>seenIds\<close>), \<open>UPDATED\<close> (its id is in \<open>seenIds\<close> and the stored fingerprint
  is not the event's fingerprint) and \<open>UNCHANGED\<close> (otherwise); \<open>NEW\<close> and \<open>UPDATED\<close>
  are the flags \<^verbatim>\<open>isNew\<close> and \<^verbatim>\<open>isUpdated\<close> of the loop, which are never both set.
  The loop acts by that classification: it skips an \<open>UNCHANGED\<close> event, with no request
  and no change of state; for a \<open>NEW\<close> event it requests the deliveries with
  \<open>isUpdate\<close> false, appends the id to \<open>seenIds\<close> and stores the fingerprint; for an
  \<open>UPDATED\<close> event it requests them with \<open>isUpdate\<close> true and stores the fingerprint.
  The state it classifies against is the one the cycle loaded, for every event whose id
  did not occur earlier in the snapshot; so for a snapshot of distinct ids the requests of
  the cycle are those of the events that are \<open>NEW\<close> or \<open>UPDATED\<close> against the loaded
  state, in the order of the feed. An event that is already seen, whose stored fingerprint
  came from another status with the same latest update id, is \<open>UPDATED\<close>.
\<close>

theorem classification_exclusive:
  "(classify state event = NEW \<longleftrightarrow> event_id event \<notin> set (seenIds state))
   \<and> (classify state event = UPDATED \<longleftrightarrow>
        event_id event \<in> set (seenIds state)
        \<and> fingerprints state (event_id event) \<noteq> Some (fingerprint event))
   \<and> (classify state event = UNCHANGED \<longleftrightarrow>
        event_id event \<in> set (seenIds state)
        \<and> fingerprints state (event_id event) = Some (fingerprint event))
   \<and> (classify state event = NEW \<longleftrightarrow> isNew state event)
   \<and> (classify state event = UPDATED \<longleftrightarrow> isUpdated state event)
   \<and> \<not> (isNew state event \<and> isUpdated state event)
   \<and> (classify state event = UNCHANGED \<longrightarrow>
        processEvents toLowerCase getSubscription subscriberIds (event # rest) (state, sent)
          = processEvents toLowerCase getSubscription subscriberIds rest (state, sent))
   \<and> (classify state event = NEW \<longrightarrow>
        processEvents toLowerCase getSubscription subscriberIds (event # rest) (state, sent)
          = processEvents toLowerCase getSubscription subscriberIds rest
              (state\<lparr>seenIds := seenIds state @ [event_id event],
                     fingerprints :=
                       assign_property (fingerprints state) (event_id event)
                         (fingerprint event)\<rparr>,
               sent @ notifySubscribers toLowerCase getSubscription subscriberIds event False))
   \<and> (classify state event = UPDATED \<longrightarrow>
        processEvents toLowerCase getSubscription subscriberIds (event # rest) (state, sent)
          = processEvents toLowerCase getSubscription subscriberIds rest
              (state\<lparr>fingerprints :=
                       assign_property (fingerprints state) (event_id event)
                         (fingerprint event)\<rparr>,
               sent @ notifySubscribers toLowerCase getSubscription subscriberIds event True))
   \<and> processEvents toLowerCase getSubscription subscriberIds (earlier @ event # rest)
          (state, sent)
        = processEvents toLowerCase getSubscription subscriberIds (event # rest)
            (processEvents toLowerCase getSubscription subscriberIds earlier (state, sent))
   \<and> (event_id event \<notin> event_id ` set earlier \<longrightarrow>
        classify (fst (processEvents toLowerCase getSubscription subscriberIds earlier
                         (state, sent))) event
          = classify state event)
   \<and> (distinct (map event_id events) \<longrightarrow>
        snd (pollAndNotify toLowerCase now stored events subscriberIds getSubscription)
          = concat (map (\<lambda>e. case classify (loadState stored now) e of
                UNCHANGED \<Rightarrow> []
              | NEW \<Rightarrow> notifySubscribers toLowerCase getSubscription subscriberIds e False
              | UPDATED \<Rightarrow> notifySubscribers toLowerCase getSubscription subscriberIds e True)
              events))
   \<and> (event_id (parseEvent new et) \<in> set (seenIds state)
        \<and> fingerprints state (event_id (parseEvent new et)) = Some (getFingerprint old)
        \<and> latestUpdateId new = latestUpdateId old \<and> status new \<noteq> status old
        \<longrightarrow> classify state (parseEvent new et) = UPDATED)"
proof -
  have flags: "(classify state event = NEW \<longleftrightarrow> event_id event \<notin> set (seenIds state))
   \<and> (classify state event = UPDATED \<longleftrightarrow>
        event_id event \<in> set (seenIds state)
        \<and> fingerprints state (event_id event) \<noteq> Some (fingerprint event))
   \<and> (classify state event = UNCHANGED \<longleftrightarrow>
        event_id event \<in> set (seenIds state)
        \<and> fingerprints state (event_id event) = Some (fingerprint event))
   \<and> (classify state event = NEW \<longleftrightarrow> isNew state event)
   \<and> (classify state event = UPDATED \<longleftrightarrow> isUpdated state event)
   \<and> \<not> (isNew state event \<and> isUpdated state event)"
    by (auto simp: classify_def isNew_def isUpdated_def)
  note step = processEvents_step [of toLowerCase getSubscription subscriberIds event rest
                state sent]
  have s1: "classify state event = UNCHANGED \<longrightarrow>
        processEvents toLowerCase getSubscription subscriberIds (event # rest) (state, sent)
          = processEvents toLowerCase getSubscription subscriberIds rest (state, sent)"
    using step by simp
  have s2: "classify state event = NEW \<longrightarrow>
        processEvents toLowerCase getSubscription subscriberIds (event # rest) (state, sent)
          = processEvents toLowerCase getSubscription subscriberIds rest
              (state\<lparr>seenIds := seenIds state @ [event_id event],
                     fingerprints :=
                       assign_property (fingerprints state) (event_id event)
                         (fingerprint event)\<rparr>,
               sent @ notifySubscribers toLowerCase getSubscription subscriberIds event False)"
    using step by simp
  have s3: "classify state event = UPDATED \<longrightarrow>
        processEvents toLowerCase getSubscription subscriberIds (event # rest) (state, sent)
          = processEvents toLowerCase getSubscription subscriberIds rest
              (state\<lparr>fingerprints :=
                       assign_property (fingerprints state) (event_id event)
                         (fingerprint event)\<rparr>,
               sent @ notifySubscribers toLowerCase getSubscription subscriberIds event True)"
    using step by simp
  have app: "processEvents toLowerCase getSubscription subscriberIds (earlier @ event # rest)
          (state, sent)
        = processEvents toLowerCase getSubscription subscriberIds (event # rest)
            (processEvents toLowerCase getSubscription subscriberIds earlier (state, sent))"
    by (rule processEvents_append)
  have run: "event_id event \<notin> event_id ` set earlier \<longrightarrow>
        classify (fst (processEvents toLowerCase getSubscription subscriberIds earlier
                         (state, sent))) event
          = classify state event"
    using classify_running_state by blast
  have req: "distinct (map event_id events) \<longrightarrow>
        snd (pollAndNotify toLowerCase now stored events subscriberIds getSubscription)
          = concat (map (\<lambda>e. case classify (loadState stored now) e of
                UNCHANGED \<Rightarrow> []
              | NEW \<Rightarrow> notifySubscribers toLowerCase getSubscription subscriberIds e False
              | UPDATED \<Rightarrow> notifySubscribers toLowerCase getSubscription subscriberIds e True)
              events)"
  proof (cases "subscriberIds = []")
    case True
    then show ?thesis
      by (simp add: pollAndNotify_def notifySubscribers_nobody split: Classification.splits)
  next
    case False
    show ?thesis
    proof
      assume d: "distinct (map event_id events)"
      obtain st' sent' where
        pe: "processEvents toLowerCase getSubscription subscriberIds events
               (loadState stored now, []) = (st', sent')"
        by fastforce
      from processEvents_requests [OF d, of toLowerCase getSubscription subscriberIds
             "loadState stored now" "[]"] False pe
      show "snd (pollAndNotify toLowerCase now stored events subscriberIds getSubscription)
          = concat (map (\<lambda>e. case classify (loadState stored now) e of
                UNCHANGED \<Rightarrow> []
              | NEW \<Rightarrow> notifySubscribers toLowerCase getSubscription subscriberIds e False
              | UPDATED \<Rightarrow> notifySubscribers toLowerCase getSubscription subscriberIds e True)
              events)"
        by (simp add: pollAndNotify_def)
    qed
  qed
  have d: "event_id (parseEvent new et) \<in> set (seenIds state)
        \<and> fingerprints state (event_id (parseEvent new et)) = Some (getFingerprint old)
        \<and> latestUpdateId new = latestUpdateId old \<and> status new \<noteq> status old
        \<longrightarrow> classify state (parseEvent new et) = UPDATED"
    by (auto simp: classify_def isNew_def isUpdated_def getFingerprint_def parseEvent_def
          StatusEvent.defs ParsedEvent.defs)
  from flags s1 s2 s3 app run req d show ?thesis by (intro conjI) blast+
qed

text \<open>
  Scenario D: the state has seen \<^verbatim>\<open>a\<close> with the fingerprint \<^verbatim>\<open>investigating:1\<close>, and
  the feed now has \<^verbatim>\<open>a\<close> resolved, with the same latest update. The event is
  \<open>UPDATED\<close>, and the cycle requests its delivery to the subscriber with \<open>isUpdate\<close>
  true.
\<close>

theorem classification_exclusive_witness:
  "event_id (parseEvent event_a_resolved Incident) \<in> set (seenIds state_seen_a)
   \<and> fingerprints state_seen_a (event_id (parseEvent event_a_resolved Incident))
        = Some (getFingerprint event_a_investigating)
   \<and> latestUpdateId event_a_resolved = latestUpdateId event_a_investigating
   \<and> status event_a_resolved \<noteq> status event_a_investigating
   \<and> classify state_seen_a (parseEvent event_a_resolved Incident) = UPDATED
   \<and> distinct (map event_id [parseEvent event_a_resolved Incident])
   \<and> snd (pollAndNotify asciiToLowerCase ''t2'' (Some state_seen_a)
             [parseEvent event_a_resolved Incident] [1] example_directory)
        = [(1, parseEvent event_a_resolved Incident, True)]"
proof -
  have h: "event_id (parseEvent event_a_resolved Incident) \<in> set (seenIds state_seen_a)"
          "fingerprints state_seen_a (event_id (parseEvent event_a_resolved Incident))
             = Some (getFingerprint event_a_investigating)"
          "latestUpdateId event_a_resolved = latestUpdateId event_a_investigating"
          "status event_a_resolved \<noteq> status event_a_investigating"
    by (simp_all add: event_a_resolved_def event_a_investigating_def example_event_def
          state_seen_a_def parseEvent_def StatusEvent.defs ParsedEvent.defs
          getFingerprint_def latestUpdateId_def)
  have dist: "distinct (map event_id [parseEvent event_a_resolved Incident])" by simp
  note th = classification_exclusive
         [where state = state_seen_a and event = "parseEvent event_a_resolved Incident"
            and new = event_a_resolved and et = Incident and old = event_a_investigating
            and events = "[parseEvent event_a_resolved Incident]"
            and toLowerCase = asciiToLowerCase and now = "''t2''"
            and stored = "Some state_seen_a" and subscriberIds = "[1]"
            and getSubscription = example_directory]
  from th h have u: "classify state_seen_a (parseEvent event_a_resolved Incident) = UPDATED"
    by blast
  have ld: "loadState (Some state_seen_a) ''t2'' = state_seen_a"
    by (simp add: loadState_def)
  have m: "eventMatchesSubscription asciiToLowerCase (parseEvent event_a_resolved Incident)
             (example_subscription [] ImpactNone (EventTypesString ''all''))"
    by (simp add: eventMatchesSubscription_def example_subscription_def parseEvent_def
          StatusEvent.defs ParsedEvent.defs)
  from th dist have "snd (pollAndNotify asciiToLowerCase ''t2'' (Some state_seen_a)
             [parseEvent event_a_resolved Incident] [1] example_directory)
        = concat (map (\<lambda>e. case classify (loadState (Some state_seen_a) ''t2'') e of
                UNCHANGED \<Rightarrow> []
              | NEW \<Rightarrow> notifySubscribers asciiToLowerCase example_directory [1] e False
              | UPDATED \<Rightarrow> notifySubscribers asciiToLowerCase example_directory [1] e True)
              [parseEvent event_a_resolved Incident])"
    by blast
  then have "snd (pollAndNotify asciiToLowerCase ''t2'' (Some state_seen_a)
             [parseEvent event_a_resolved Incident] [1] example_directory)
        = [(1, parseEvent event_a_resolved Incident, True)]"
    by (simp add: ld u notifySubscribers_def example_directory_def m)
  with h u dist show ?thesis by simp
qed

section \<open>Fetching\<close>

lemma fetchFromUrl_total: "\<exists>events. fetchFromUrl fetch url key et = Inr events"
  by (auto simp: fetchFromUrl_def try_catch_def split: sum.splits)

text \<open>
  Claim C9. A sub-fetch never lets an error out: \<^verbatim>\<open>fetchFromUrl\<close> always returns a
  sequence of events, and the empty one when \<^verbatim>\<open>fetch\<close> throws, when the response is not
  OK, and when reading the body throws. So each of the three sub-fetches returns, and the
  snapshot of the cycle is their concatenation, to which a failed one adds nothing.
\<close>

theorem fetch_failure_empty:
  "(\<exists>events. fetchFromUrl fetch url key et = Inr events)
   \<and> ((\<exists>e. fetch url = Inl e) \<longrightarrow> fetchFromUrl fetch url key et = Inr [])
   \<and> (\<forall>r. fetch url = Inr r \<and> \<not> ok r \<longrightarrow> fetchFromUrl fetch url key et = Inr [])
   \<and> (\<forall>r e. fetch url = Inr r \<and> json r = Inl e \<longrightarrow> fetchFromUrl fetch url key et = Inr [])
   \<and> (\<exists>a b c. fetchIncidents fetch = Inr a \<and> fetchActiveMaintenances fetch = Inr b
        \<and> fetchUpcomingMaintenances fetch = Inr c
        \<and> fetchAllEvents fetch True = Inr (a @ b @ c)
        \<and> fetchAllEvents fetch False = Inr (a @ b))"
proof -
  obtain a where a: "fetchIncidents fetch = Inr a"
    unfolding fetchIncidents_def using fetchFromUrl_total by blast
  obtain b where b: "fetchActiveMaintenances fetch = Inr b"
    unfolding fetchActiveMaintenances_def using fetchFromUrl_total by blast
  obtain c where c: "fetchUpcomingMaintenances fetch = Inr c"
    unfolding fetchUpcomingMaintenances_def using fetchFromUrl_total by blast
  have all: "fetchAllEvents fetch True = Inr (a @ b @ c)
             \<and> fetchAllEvents fetch False = Inr (a @ b)"
    by (simp add: fetchAllEvents_def a b c)
  have "(\<exists>e. fetch url = Inl e) \<longrightarrow> fetchFromUrl fetch url key et = Inr []"
    by (auto simp: fetchFromUrl_def try_catch_def)
  moreover have "\<forall>r. fetch url = Inr r \<and> \<not> ok r \<longrightarrow> fetchFromUrl fetch url key et = Inr []"
    by (auto simp: fetchFromUrl_def try_catch_def)
  moreover have "\<forall>r e. fetch url = Inr r \<and> json r = Inl e
                   \<longrightarrow> fetchFromUrl fetch url key et = Inr []"
    by (auto simp: fetchFromUrl_def try_catch_def)
  ultimately show ?thesis using fetchFromUrl_total a b c all by blast
qed

text \<open>
  The incidents endpoint throws and the active maintenances endpoint answers 503: both
  contribute nothing, and the snapshot is the one upcoming maintenance.
\<close>

theorem fetch_failure_empty_witness:
  "example_fetch INCIDENTS_URL = Inl NetworkError
   \<and> fetchFromUrl example_fetch INCIDENTS_URL ''incidents'' Incident = Inr []
   \<and> fetchFromUrl example_fetch MAINTENANCE_ACTIVE_URL ''scheduled_maintenances'' Maintenance
       = Inr []
   \<and> fetchAllEvents example_fetch True = Inr [store_maintenance]"
proof -
  have i: "example_fetch INCIDENTS_URL = Inl NetworkError"
    by (simp add: example_fetch_def)
  have m: "example_fetch MAINTENANCE_ACTIVE_URL
             = Inr \<lparr>ok = False, http_status = 503, json = Inl JsonError\<rparr>"
    by (simp add: example_fetch_def INCIDENTS_URL_def MAINTENANCE_ACTIVE_URL_def)
  have u: "fetchUpcomingMaintenances example_fetch = Inr [store_maintenance]"
    by (simp add: fetchUpcomingMaintenances_def fetchFromUrl_def try_catch_def
          example_fetch_def INCIDENTS_URL_def MAINTENANCE_ACTIVE_URL_def
          MAINTENANCE_UPCOMING_URL_def store_maintenance_def)
  have a: "fetchFromUrl example_fetch INCIDENTS_URL ''incidents'' Incident = Inr []"
    using i fetch_failure_empty [of example_fetch INCIDENTS_URL "''incidents''" Incident]
    by simp
  have b: "fetchFromUrl example_fetch MAINTENANCE_ACTIVE_URL ''scheduled_maintenances''
             Maintenance = Inr []"
    using m fetch_failure_empty
              [of example_fetch MAINTENANCE_ACTIVE_URL "''scheduled_maintenances''" Maintenance]
    by simp
  from a b u have "fetchAllEvents example_fetch True = Inr [store_maintenance]"
    by (simp add: fetchAllEvents_def fetchIncidents_def fetchActiveMaintenances_def)
  with i a b show ?thesis by simp
qed

section \<open>The cycle and the store\<close>

lemma saveState_current_seen:
  "i \<in> currentIds events \<Longrightarrow>
   i \<in> set (seenIds (saveState now st events)) \<longleftrightarrow> i \<in> set (seenIds st)"
  using set_slice_last [of 50 "filter (\<lambda>i. i \<notin> currentIds events) (seenIds st)"]
  by (auto simp: saveState_def relevantIds_def historicalIds_def)

lemma saveState_seen_subset:
  "set (seenIds (saveState now st events)) \<subseteq> set (seenIds st)"
  using set_slice_last [of 50 "filter (\<lambda>i. i \<notin> currentIds events) (seenIds st)"]
  by (auto simp: saveState_def relevantIds_def historicalIds_def)

lemma saveState_fingerprints:
  "fingerprints (saveState now st events) i
     = (if i \<in> set (seenIds (saveState now st events)) then fingerprints st i else None)"
  by (simp add: saveState_def restrict_map_def)

text \<open>
  What \<^verbatim>\<open>saveState\<close> retains is decided by position in \<open>seenIds\<close>: an id stays when
  it is in the snapshot, or among the last 50 entries of the ids absent from it.
\<close>

lemma retained_iff:
  "i \<in> set (seenIds (saveState now st events)) \<longleftrightarrow>
     i \<in> set (seenIds st)
     \<and> (i \<in> currentIds events
         \<or> i \<in> set (slice_last 50 (filter (\<lambda>j. j \<notin> currentIds events) (seenIds st))))"
  using set_slice_last [of 50 "filter (\<lambda>i. i \<notin> currentIds events) (seenIds st)"]
  by (auto simp: saveState_def relevantIds_def historicalIds_def)

text \<open>
  Claim C1, as the code has it. A cycle with an empty subscriber list returns before the
  loop that classifies: it makes no request and saves the loaded state as \<^verbatim>\<open>saveState\<close>
  prunes it. No id is added to \<open>seenIds\<close> and no fingerprint is added or changed, so an
  event of the snapshot is seen afterwards exactly when it was seen before. The state
  advances to the snapshot in the cycles that have a subscriber id: then every event id of
  the snapshot is in \<open>seenIds\<close> after the commit and, when the ids of the snapshot are
  distinct, \<open>fingerprints\<close> maps each id other than \<^verbatim>\<open>__proto__\<close> to the fingerprint of
  its event.
\<close>

theorem no_subscribers_only_prunes:
  "pollAndNotify toLowerCase now stored events [] getSubscription
     = (saveState now (loadState stored now) events, [])
   \<and> set (seenIds (fst (pollAndNotify toLowerCase now stored events [] getSubscription)))
        \<subseteq> set (seenIds (loadState stored now))
   \<and> fingerprints (fst (pollAndNotify toLowerCase now stored events [] getSubscription))
        \<subseteq>\<^sub>m fingerprints (loadState stored now)
   \<and> (\<forall>e \<in> set events.
        event_id e
          \<in> set (seenIds (fst (pollAndNotify toLowerCase now stored events [] getSubscription)))
        \<longleftrightarrow> event_id e \<in> set (seenIds (loadState stored now)))
   \<and> (subscriberIds \<noteq> [] \<longrightarrow>
        (\<forall>e \<in> set events.
           event_id e \<in> set (seenIds
             (fst (pollAndNotify toLowerCase now stored events subscriberIds
                     getSubscription)))))
   \<and> (subscriberIds \<noteq> [] \<and> distinct (map event_id events) \<longrightarrow>
        (\<forall>e \<in> set events. event_id e \<noteq> ''__proto__'' \<longrightarrow>
           fingerprints (fst (pollAndNotify toLowerCase now stored events subscriberIds
                                getSubscription))
             (event_id e) = Some (fingerprint e)))"
proof -
  let ?st = "loadState stored now"
  have p: "pollAndNotify toLowerCase now stored events [] getSubscription
             = (saveState now ?st events, [])"
    by (simp add: pollAndNotify_def)
  have a: "set (seenIds (saveState now ?st events)) \<subseteq> set (seenIds ?st)"
    by (rule saveState_seen_subset)
  have b: "fingerprints (saveState now ?st events) \<subseteq>\<^sub>m fingerprints ?st"
    by (simp add: map_le_def saveState_def restrict_map_def dom_def)
  have c: "\<forall>e \<in> set events. event_id e \<in> set (seenIds (saveState now ?st events))
             \<longleftrightarrow> event_id e \<in> set (seenIds ?st)"
    by (simp add: saveState_current_seen currentIds_def)
  have d: "event_id e \<in> set (seenIds
             (fst (pollAndNotify toLowerCase now stored events subscriberIds getSubscription)))"
    if "subscriberIds \<noteq> []" "e \<in> set events" for e
  proof -
    obtain st' sent where
      pe: "processEvents toLowerCase getSubscription subscriberIds events (?st, [])
             = (st', sent)"
      by fastforce
    have "event_id e \<in> set (seenIds st')"
      using processEvents_seen [of toLowerCase getSubscription subscriberIds events ?st "[]"]
        pe that
      by auto
    moreover have "event_id e \<in> currentIds events" using that by (simp add: currentIds_def)
    ultimately have "event_id e \<in> set (seenIds (saveState now st' events))"
      by (simp add: saveState_current_seen)
    with pe that show ?thesis by (simp add: pollAndNotify_def)
  qed
  have f: "fingerprints (fst (pollAndNotify toLowerCase now stored events subscriberIds
                                getSubscription))
             (event_id e) = Some (fingerprint e)"
    if "subscriberIds \<noteq> []" "distinct (map event_id events)" "e \<in> set events"
       "event_id e \<noteq> ''__proto__''" for e
  proof -
    obtain st' sent where
      pe: "processEvents toLowerCase getSubscription subscriberIds events (?st, [])
             = (st', sent)"
      by fastforce
    have "fingerprints st' (event_id e) = Some (fingerprint e)"
      using processEvents_fingerprint
              [of events e toLowerCase getSubscription subscriberIds ?st "[]"]
        pe that by simp
    moreover have "event_id e \<in> set (seenIds (saveState now st' events))"
      using d [of e] that pe by (simp add: pollAndNotify_def)
    ultimately have "fingerprints (saveState now st' events) (event_id e)
        = Some (fingerprint e)"
      by (simp add: saveState_fingerprints)
    with pe that show ?thesis by (simp add: pollAndNotify_def)
  qed
  from p a b c d f show ?thesis by simp
qed

text \<open>
  The first cycle from the empty store with one subscriber: the incident of the snapshot
  is seen afterwards, with its fingerprint; and the same cycle without a subscriber keeps
  the loaded \<open>seenIds\<close>.
\<close>

theorem no_subscribers_only_prunes_witness:
  "event_id fortnite_login
     \<in> set (seenIds (fst (pollAndNotify asciiToLowerCase ''t1'' None [fortnite_login] [1]
                            example_directory)))
   \<and> event_id fortnite_login \<noteq> ''__proto__''
   \<and> fingerprints (fst (pollAndNotify asciiToLowerCase ''t1'' None [fortnite_login] [1]
                          example_directory))
        (event_id fortnite_login) = Some (fingerprint fortnite_login)
   \<and> set (seenIds (fst (pollAndNotify asciiToLowerCase ''t1'' None [fortnite_login] []
                          example_directory)))
        \<subseteq> set (seenIds (loadState None ''t1''))"
proof -
  have h: "[1::int] \<noteq> []" "distinct (map event_id [fortnite_login])"
          "fortnite_login \<in> set [fortnite_login]"
    by simp_all
  have n: "event_id fortnite_login \<noteq> ''__proto__''"
    by (simp add: fortnite_login_def parseEvent_def example_event_def StatusEvent.defs)
  with h no_subscribers_only_prunes
         [where toLowerCase = asciiToLowerCase and now = "''t1''" and stored = None
            and events = "[fortnite_login]" and getSubscription = example_directory
            and subscriberIds = "[1]"]
  show ?thesis by blast
qed

text \<open>
  The claim as stated fails at the first cycle from the empty store with no subscriber:
  the incident of the snapshot is not in \<open>seenIds\<close> after the commit, and has no
  fingerprint.
\<close>

theorem state_not_advanced_counterexample:
  "event_id fortnite_login
     \<notin> set (seenIds (fst (pollAndNotify asciiToLowerCase ''t1'' None [fortnite_login] []
                            example_directory)))
   \<and> fingerprints (fst (pollAndNotify asciiToLowerCase ''t1'' None [fortnite_login] []
                          example_directory))
        (event_id fortnite_login) \<noteq> Some (fingerprint fortnite_login)"
  by (simp add: pollAndNotify_def loadState_def saveState_def relevantIds_def
        historicalIds_def slice_last_def)

text \<open>
  The id \<^verbatim>\<open>__proto__\<close> is the exception of the last clause: the cycle that first sees
  such an event marks the id as seen and stores no fingerprint for it, so that the event
  is \<open>UPDATED\<close> in every later cycle.
\<close>

lemma proto_id_not_stored:
  "seenIds (fst (pollAndNotify asciiToLowerCase ''t1'' None [example_incident ''__proto__'']
                   [1] example_directory)) = [''__proto__'']
   \<and> fingerprints (fst (pollAndNotify asciiToLowerCase ''t1'' None
                          [example_incident ''__proto__''] [1] example_directory))
        ''__proto__'' = None
   \<and> classify (fst (pollAndNotify asciiToLowerCase ''t1'' None
                      [example_incident ''__proto__''] [1] example_directory))
        (example_incident ''__proto__'') = UPDATED"
  by code_simp

text \<open>
  Claim C2, at a feed that churns. Fifty incidents are in the feed in the first cycle and
  gone in the second, where the incident \<^verbatim>\<open>a\<close> appears; the commit of the second cycle
  puts \<^verbatim>\<open>a\<close> in front of them. In the third cycle \<^verbatim>\<open>a\<close> is gone too: it is then the
  id that left the feed last, and it is the one the commit drops, while the fifty ids that
  left a cycle earlier all stay.
\<close>

theorem retention_drops_latest_disappeared:
  "seenIds churn_cycle1 = example_ids50
   \<and> ''a'' \<in> currentIds [example_incident ''a'']
   \<and> seenIds churn_cycle2 = ''a'' # example_ids50
   \<and> seenIds churn_cycle3 = example_ids50
   \<and> ''a'' \<notin> set (seenIds churn_cycle3)"
proof -
  have c1: "seenIds churn_cycle1 = example_ids50"
    by code_simp
  have c2: "seenIds churn_cycle2 = ''a'' # example_ids50"
    by code_simp
  have c3: "seenIds churn_cycle3 = example_ids50"
    by code_simp
  have "''a'' \<in> currentIds [example_incident ''a'']"
    by (simp add: currentIds_def example_incident_def parseEvent_def example_event_def
          StatusEvent.defs)
  moreover have "''a'' \<notin> set example_ids50"
    by (simp add: example_ids50_def)
  ultimately show ?thesis using c1 c2 c3 by simp
qed

section \<open>The services filter\<close>



text \<open>
  The condition on the entries is there for the space that ends the haystack: an entry
  that ends in a space, which no command stores, can match at the end of the title.
\<close>

lemma entry_ending_in_space:
  "components fortnite_login = Some []
   \<and> eventMatchesSubscription asciiToLowerCase fortnite_login
        (example_subscription [''issues ''] ImpactNone (EventTypesString ''all''))
   \<and> \<not> str_includes (asciiToLowerCase (name fortnite_login)) (asciiToLowerCase ''issues '')"
  by code_simp

end
